theory Spec2Isabelle
  imports Complex_Main
begin

section \<open>Host numbers and the wire representation\<close>

text \<open>
  A JavaScript \<open>number\<close>. The decoder never computes with numbers: it passes them on and,
  in \<open>value.integerValue || value.doubleValue\<close>, tests them for truthiness. The finite
  values are kept as rationals; negative zero is not told apart from zero (both are falsy
  and \<open>===\<close>-equal).
\<close>

datatype number = Finite rat | NaN | PosInfinity | NegInfinity

text \<open>The union \<open>number | string\<close> of the numeric fields of the wire format.\<close>

datatype numeric = NumberLit number | StringLit string

record LatLng =
  latitude :: "numeric option"
  longitude :: "numeric option"

text \<open>
  Modelled from the spec: the wire value type \<open>Value\<close> of
  \<open>protos/firestore_proto_api\<close>, which is not among the sources. The data model
  describes it as a tagged union in which exactly one variant tag is populated: Null,
  Boolean, Integer-or-Double Number, Timestamp, ServerTimestamp (annotated with a local
  write time that is always present and an optional previous value), String, Blob,
  Reference, GeoPoint, Array and Map. \<open>WUnknown\<close> is a value none of whose known tags
  is populated. The payload of a timestamp (\<open>'ts\<close>) and of a blob (\<open>'bw\<close>) is only
  handed to helpers outside the sources and stays abstract. \<open>values\<close> of an array and
  \<open>fields\<close> of a map are optional, as \<open>arrayValue.values || []\<close> and
  \<open>mapValue.fields || {}\<close> expect; the fields of a map are listed in the enumeration
  order of the object.
\<close>

datatype ('ts, 'bw) Value =
    WNull
  | WBoolean bool
  | WInteger numeric
  | WDouble numeric
  | WTimestamp 'ts
  | WServerTimestamp 'ts "('ts, 'bw) Value option"
  | WString string
  | WBytes 'bw
  | WReference string
  | WGeoPoint LatLng
  | WArray "('ts, 'bw) Value list option"
  | WMap "(string \<times> ('ts, 'bw) Value) list option"
  | WUnknown

type_synonym ('ts, 'bw) ArrayValue = "('ts, 'bw) Value list option"
type_synonym ('ts, 'bw) MapValue = "(string \<times> ('ts, 'bw) Value) list option"

text \<open>The enumeration \<open>TypeOrder\<close> that \<open>convertValue\<close> switches on.\<close>

datatype TypeOrder =
    NullValue | BooleanValue | NumberValue | TimestampValue | ServerTimestampValue
  | StringValue | BlobValue | RefValue | GeoPointValue | ArrayValue | ObjectValue

text \<open>
  Modelled from the spec: \<open>typeOrder\<close> of \<open>model/values\<close>, which is not among the
  sources. Type discrimination maps every legal wire value to exactly one of the eleven
  variants; \<open>None\<close> is the unrecognized shape, on which the \<open>switch\<close> of
  \<open>convertValue\<close> finds no matching \<open>case\<close>.
\<close>

fun typeOrder :: "('ts, 'bw) Value \<Rightarrow> TypeOrder option" where
  "typeOrder WNull = Some NullValue"
| "typeOrder (WBoolean x) = Some BooleanValue"
| "typeOrder (WInteger i) = Some NumberValue"
| "typeOrder (WDouble d) = Some NumberValue"
| "typeOrder (WTimestamp t) = Some TimestampValue"
| "typeOrder (WServerTimestamp t p) = Some ServerTimestampValue"
| "typeOrder (WString x) = Some StringValue"
| "typeOrder (WBytes x) = Some BlobValue"
| "typeOrder (WReference n) = Some RefValue"
| "typeOrder (WGeoPoint g) = Some GeoPointValue"
| "typeOrder (WArray a) = Some ArrayValue"
| "typeOrder (WMap m) = Some ObjectValue"
| "typeOrder WUnknown = None"

text \<open>
  Modelled from the spec: the fields of the wire value type that \<open>convertValue\<close> reads.
  The field of the populated variant holds its payload; every other field reads as
  \<open>undefined\<close> (\<open>None\<close>). The non-null assertions \<open>!\<close> of the source are erased at
  run time, so a read yields whatever the field holds.
\<close>

fun booleanValue :: "('ts, 'bw) Value \<Rightarrow> bool option" where
  "booleanValue (WBoolean x) = Some x"
| "booleanValue _ = None"

fun integerValue :: "('ts, 'bw) Value \<Rightarrow> numeric option" where
  "integerValue (WInteger i) = Some i"
| "integerValue _ = None"

fun doubleValue :: "('ts, 'bw) Value \<Rightarrow> numeric option" where
  "doubleValue (WDouble d) = Some d"
| "doubleValue _ = None"

fun timestampValue :: "('ts, 'bw) Value \<Rightarrow> 'ts option" where
  "timestampValue (WTimestamp t) = Some t"
| "timestampValue _ = None"

fun stringValue :: "('ts, 'bw) Value \<Rightarrow> string option" where
  "stringValue (WString x) = Some x"
| "stringValue _ = None"

fun bytesValue :: "('ts, 'bw) Value \<Rightarrow> 'bw option" where
  "bytesValue (WBytes x) = Some x"
| "bytesValue _ = None"

fun referenceValue :: "('ts, 'bw) Value \<Rightarrow> string option" where
  "referenceValue (WReference n) = Some n"
| "referenceValue _ = None"

fun geoPointValue :: "('ts, 'bw) Value \<Rightarrow> LatLng option" where
  "geoPointValue (WGeoPoint g) = Some g"
| "geoPointValue _ = None"

fun arrayValue :: "('ts, 'bw) Value \<Rightarrow> ('ts, 'bw) ArrayValue option" where
  "arrayValue (WArray a) = Some a"
| "arrayValue _ = None"

fun mapValue :: "('ts, 'bw) Value \<Rightarrow> ('ts, 'bw) MapValue option" where
  "mapValue (WMap m) = Some m"
| "mapValue _ = None"

text \<open>
  Modelled from the spec: \<open>getPreviousValue\<close> and \<open>getLocalWriteTime\<close> of
  \<open>model/server_timestamps\<close>, which is not among the sources. They read the metadata
  attached to a ServerTimestamp value: the previous value, \<open>null\<close> when absent, and the
  local write time.
\<close>

fun getPreviousValue :: "('ts, 'bw) Value \<Rightarrow> ('ts, 'bw) Value option" where
  "getPreviousValue (WServerTimestamp t p) = p"
| "getPreviousValue _ = None"

fun getLocalWriteTime :: "('ts, 'bw) Value \<Rightarrow> 'ts option" where
  "getLocalWriteTime (WServerTimestamp t p) = Some t"
| "getLocalWriteTime _ = None"

section \<open>Paths, keys and database identities\<close>

text \<open>
  Modelled from the spec: \<open>ResourcePath\<close> of \<open>model/path\<close> and \<open>DocumentKey\<close> of
  \<open>model/document_key\<close>, which are not among the sources. A resource path is the
  hierarchical path of a slash-delimited resource name, here the list of its segments; a
  document key is the path that identifies a document.
\<close>

type_synonym ResourcePath = "string list"
type_synonym DocumentKey = "string list"

text \<open>
  Modelled from the spec: \<open>ResourcePath.fromString\<close>, which parses a resource name
  into its path: the name is cut at every slash and empty segments are dropped, so that
  \<open>projects/P/databases/D/documents/coll/doc\<close> has seven segments.
\<close>

fun splitSegments :: "string \<Rightarrow> string \<Rightarrow> string list" where
  "splitSegments cur [] = [cur]"
| "splitSegments cur (c # cs) =
     (if c = CHR ''/'' then cur # splitSegments [] cs else splitSegments (cur @ [c]) cs)"

definition fromString :: "string \<Rightarrow> ResourcePath" where
  "fromString path = filter (\<lambda>segment. length segment > 0) (splitSegments [] path)"

text \<open>
  Modelled from the spec: \<open>get\<close> reads the segment at an index (\<open>undefined\<close>, here
  \<open>None\<close>, outside the path) and \<open>popFirst\<close> strips the given number of leading
  segments.
\<close>

definition get :: "ResourcePath \<Rightarrow> nat \<Rightarrow> string option" where
  "get p i = (if i < length p then Some (p ! i) else None)"

definition popFirst :: "nat \<Rightarrow> ResourcePath \<Rightarrow> ResourcePath" where
  "popFirst n p = drop n p"

text \<open>
  Modelled from the spec: the string form of a path, which the diagnostic prints for the
  document key: its segments joined by slashes.
\<close>

fun canonicalString :: "string list \<Rightarrow> string" where
  "canonicalString [] = []"
| "canonicalString [x] = x"
| "canonicalString (x # y # ys) = x @ ''/'' @ canonicalString (y # ys)"

text \<open>
  Modelled from the spec: \<open>DatabaseId\<close> of \<open>core/database_info\<close>, which is not among
  the sources: a project and a database name, with structural equality. The two names
  are what \<open>get\<close> returns, hence optional.
\<close>

record DatabaseId =
  projectId :: "string option"
  database :: "string option"

definition DatabaseId_isEqual :: "DatabaseId \<Rightarrow> DatabaseId \<Rightarrow> bool" where
  "DatabaseId_isEqual a other \<longleftrightarrow> projectId other = projectId a \<and> database other = database a"

text \<open>How a template literal prints a string that may be \<open>undefined\<close>.\<close>

fun interpolate :: "string option \<Rightarrow> string" where
  "interpolate None = ''undefined''"
| "interpolate (Some x) = x"

section \<open>The values handed to the user\<close>

text \<open>
  Modelled from the spec: the JavaScript values exposed to the user, among them the
  classes \<open>Timestamp\<close> of \<open>api/timestamp\<close> and \<open>GeoPoint\<close> of \<open>api/geo_point\<close>,
  which are not among the sources: a timestamp is the pair of seconds and nanoseconds and
  a geopoint the pair of latitude and longitude that the constructor is given. References
  and blobs are whatever the two injected factories return. \<open>HUndefined\<close> is the value
  of a field that is not populated.
\<close>

datatype ('r, 'b) UserData =
    HNull
  | HUndefined
  | HBoolean bool
  | HNumber number
  | HString string
  | HTimestamp number number
  | HGeoPoint number number
  | HBytes 'b
  | HReference 'r
  | HArray "('r, 'b) UserData list"
  | HObject "(string \<times> ('r, 'b) UserData) list"

text \<open>
  What a call can throw: \<open>fail('Invalid value type: ' + JSON.stringify(value))\<close>, the
  hard assertion \<open>'ReferenceValue is not valid ' + name\<close>, and the \<open>TypeError\<close> of
  JavaScript for a property read on \<open>undefined\<close>.
\<close>

datatype ('ts, 'bw) error =
    InvalidValueType "('ts, 'bw) Value"
  | ReferenceValueNotValid string
  | TypeError

datatype ServerTimestampBehavior = Estimate | Previous | NoBehavior

text \<open>The three constructor parameters of the class \<open>UserDataWriter\<close>.\<close>

record ('r, 'b, 'bs) UserDataWriter =
  databaseId :: DatabaseId
  referenceFactory :: "DocumentKey \<Rightarrow> 'r"
  bytesFactory :: "'bs \<Rightarrow> 'b"

text \<open>
  The imported helpers whose code is not among the sources, taken as parameters:
  \<open>normalizeTimestamp\<close> and \<open>normalizeByteString\<close> of \<open>model/values\<close>,
  \<open>isValidResourceName\<close> of \<open>remote/serializer\<close>, and the conversion \<open>Number(string)\<close>
  of the platform. Each is taken at its signature: a function of its argument alone that
  returns a value of its declared type. The two normalizers are handed a field read
  behind a non-null assertion, hence an optional argument.
\<close>

record ('ts, 'bw, 'bs) Imports =
  normalizeTimestamp :: "'ts option \<Rightarrow> number \<times> number"
  normalizeByteString :: "'bw option \<Rightarrow> 'bs"
  isValidResourceName :: "ResourcePath \<Rightarrow> bool"
  parseNumber :: "string \<Rightarrow> number"

text \<open>
  Modelled from the spec: \<open>normalizeNumber\<close> of \<open>model/values\<close>, which is not among
  the sources. Normalization reproduces the native number without loss: a number is
  returned as it is and a string is converted by the platform. A missing value, which is
  what \<open>integerValue || doubleValue\<close> yields for the integer \<open>0\<close>, is zero, as the
  equality of integer and floating-point zero requires.
\<close>

definition normalizeNumber :: "('ts, 'bw, 'bs) Imports \<Rightarrow> numeric option \<Rightarrow> number" where
  "normalizeNumber h v =
     (case v of
        Some (NumberLit n) \<Rightarrow> n
      | Some (StringLit s) \<Rightarrow> parseNumber h s
      | None \<Rightarrow> Finite 0)"

text \<open>Truthiness of a \<open>number | string\<close>, and the operator \<open>||\<close> on two optional fields.\<close>

fun truthy :: "numeric \<Rightarrow> bool" where
  "truthy (NumberLit n) = (n \<noteq> Finite 0 \<and> n \<noteq> NaN)"
| "truthy (StringLit s) = (s \<noteq> [])"

definition orElse :: "numeric option \<Rightarrow> numeric option \<Rightarrow> numeric option" where
  "orElse a b = (case a of Some x \<Rightarrow> if truthy x then Some x else b | None \<Rightarrow> b)"

section \<open>The decoder\<close>

type_synonym log = "string list"

definition logError :: "string \<Rightarrow> log \<Rightarrow> log" where
  "logError msg s = s @ [msg]"

definition convertTimestamp :: "('ts, 'bw, 'bs) Imports \<Rightarrow> 'ts option \<Rightarrow> ('r, 'b) UserData" where
  "convertTimestamp h v =
     (let normalizedValue = normalizeTimestamp h v
      in HTimestamp (fst normalizedValue) (snd normalizedValue))"

definition convertGeoPoint ::
  "('ts, 'bw, 'bs) Imports \<Rightarrow> LatLng option \<Rightarrow> ('ts, 'bw) error + ('r, 'b) UserData" where
  "convertGeoPoint h v =
     (case v of
        None \<Rightarrow> Inl TypeError
      | Some g \<Rightarrow> Inr (HGeoPoint (normalizeNumber h (latitude g)) (normalizeNumber h (longitude g))))"

definition crossDatabaseMessage :: "DocumentKey \<Rightarrow> DatabaseId \<Rightarrow> DatabaseId \<Rightarrow> string" where
  "crossDatabaseMessage key foreign local =
     ''Document '' @ canonicalString key @ '' contains a document '' @
     ''reference within a different database ('' @
     interpolate (projectId foreign) @ ''/'' @ interpolate (database foreign) @
     '') which is not '' @
     ''supported. It will be treated as a reference in the current '' @
     ''database ('' @ interpolate (projectId local) @ ''/'' @ interpolate (database local) @ '') '' @
     ''instead.''"

definition convertReference ::
  "('r, 'b, 'bs) UserDataWriter \<Rightarrow> ('ts, 'bw, 'bs) Imports \<Rightarrow> string option \<Rightarrow> log \<Rightarrow>
   (('ts, 'bw) error + ('r, 'b) UserData) \<times> log" where
  "convertReference w h v s =
     (case v of
        None \<Rightarrow> (Inl TypeError, s)
      | Some name \<Rightarrow>
          (let resourcePath = fromString name in
           if \<not> isValidResourceName h resourcePath
           then (Inl (ReferenceValueNotValid name), s)
           else
             (let databaseId' = \<lparr>projectId = get resourcePath 1, database = get resourcePath 3\<rparr>;
                  key = popFirst 5 resourcePath;
                  s' = (if \<not> DatabaseId_isEqual databaseId' (databaseId w)
                        then logError (crossDatabaseMessage key databaseId' (databaseId w)) s
                        else s)
              in (Inr (HReference (referenceFactory w key)), s'))))"

text \<open>The assignment \<open>result[key] = value\<close> on an object listed in enumeration order.\<close>

fun assign :: "string \<Rightarrow> 'v \<Rightarrow> (string \<times> 'v) list \<Rightarrow> (string \<times> 'v) list" where
  "assign k v [] = [(k, v)]"
| "assign k v (p # ps) = (if fst p = k then (k, v) # ps else p # assign k v ps)"

text \<open>
  \<open>convertValue\<close> with the private methods it recurses through. \<open>mapValues\<close> is the
  loop of \<open>Array.prototype.map\<close> in \<open>convertArray\<close>, \<open>forEachField\<close> the loop of
  \<open>forEach\<close> in \<open>convertObject\<close>. The diagnostics logged so far are passed along; an
  exception ends the call and leaves them as they are.
\<close>

function
  convertValue ::
    "('r, 'b, 'bs) UserDataWriter \<Rightarrow> ('ts, 'bw, 'bs) Imports \<Rightarrow> ('ts, 'bw) Value \<Rightarrow>
     ServerTimestampBehavior \<Rightarrow> log \<Rightarrow> (('ts, 'bw) error + ('r, 'b) UserData) \<times> log"
and convertObject ::
    "('r, 'b, 'bs) UserDataWriter \<Rightarrow> ('ts, 'bw, 'bs) Imports \<Rightarrow> ('ts, 'bw) MapValue \<Rightarrow>
     ServerTimestampBehavior \<Rightarrow> log \<Rightarrow> (('ts, 'bw) error + ('r, 'b) UserData) \<times> log"
and forEachField ::
    "('r, 'b, 'bs) UserDataWriter \<Rightarrow> ('ts, 'bw, 'bs) Imports \<Rightarrow> (string \<times> ('ts, 'bw) Value) list \<Rightarrow>
     ServerTimestampBehavior \<Rightarrow> (string \<times> ('r, 'b) UserData) list \<Rightarrow> log \<Rightarrow>
     (('ts, 'bw) error + (string \<times> ('r, 'b) UserData) list) \<times> log"
and convertArray ::
    "('r, 'b, 'bs) UserDataWriter \<Rightarrow> ('ts, 'bw, 'bs) Imports \<Rightarrow> ('ts, 'bw) ArrayValue \<Rightarrow>
     ServerTimestampBehavior \<Rightarrow> log \<Rightarrow> (('ts, 'bw) error + ('r, 'b) UserData) \<times> log"
and mapValues ::
    "('r, 'b, 'bs) UserDataWriter \<Rightarrow> ('ts, 'bw, 'bs) Imports \<Rightarrow> ('ts, 'bw) Value list \<Rightarrow>
     ServerTimestampBehavior \<Rightarrow> log \<Rightarrow> (('ts, 'bw) error + ('r, 'b) UserData list) \<times> log"
and convertServerTimestamp ::
    "('r, 'b, 'bs) UserDataWriter \<Rightarrow> ('ts, 'bw, 'bs) Imports \<Rightarrow> ('ts, 'bw) Value \<Rightarrow>
     ServerTimestampBehavior \<Rightarrow> log \<Rightarrow> (('ts, 'bw) error + ('r, 'b) UserData) \<times> log"
where
  "convertValue w h v b s =
     (case typeOrder v of
        Some NullValue \<Rightarrow> (Inr HNull, s)
      | Some BooleanValue \<Rightarrow>
          (Inr (case booleanValue v of Some x \<Rightarrow> HBoolean x | None \<Rightarrow> HUndefined), s)
      | Some NumberValue \<Rightarrow>
          (Inr (HNumber (normalizeNumber h (orElse (integerValue v) (doubleValue v)))), s)
      | Some TimestampValue \<Rightarrow> (Inr (convertTimestamp h (timestampValue v)), s)
      | Some ServerTimestampValue \<Rightarrow> convertServerTimestamp w h v b s
      | Some StringValue \<Rightarrow>
          (Inr (case stringValue v of Some x \<Rightarrow> HString x | None \<Rightarrow> HUndefined), s)
      | Some BlobValue \<Rightarrow> (Inr (HBytes (bytesFactory w (normalizeByteString h (bytesValue v)))), s)
      | Some RefValue \<Rightarrow> convertReference w h (referenceValue v) s
      | Some GeoPointValue \<Rightarrow> (convertGeoPoint h (geoPointValue v), s)
      | Some ArrayValue \<Rightarrow>
          (case arrayValue v of Some a \<Rightarrow> convertArray w h a b s | None \<Rightarrow> (Inl TypeError, s))
      | Some ObjectValue \<Rightarrow>
          (case mapValue v of Some m \<Rightarrow> convertObject w h m b s | None \<Rightarrow> (Inl TypeError, s))
      | None \<Rightarrow> (Inl (InvalidValueType v), s))"
| "convertObject w h m b s =
     (case forEachField w h (case m of Some fs \<Rightarrow> fs | None \<Rightarrow> []) b [] s of
        (Inl e, s') \<Rightarrow> (Inl e, s')
      | (Inr result, s') \<Rightarrow> (Inr (HObject result), s'))"
| "forEachField w h [] b result s = (Inr result, s)"
| "forEachField w h (kv # rest) b result s =
     (case convertValue w h (snd kv) b s of
        (Inl e, s') \<Rightarrow> (Inl e, s')
      | (Inr x, s') \<Rightarrow> forEachField w h rest b (assign (fst kv) x result) s')"
| "convertArray w h a b s =
     (case mapValues w h (case a of Some vs \<Rightarrow> vs | None \<Rightarrow> []) b s of
        (Inl e, s') \<Rightarrow> (Inl e, s')
      | (Inr xs, s') \<Rightarrow> (Inr (HArray xs), s'))"
| "mapValues w h [] b s = (Inr [], s)"
| "mapValues w h (v # rest) b s =
     (case convertValue w h v b s of
        (Inl e, s') \<Rightarrow> (Inl e, s')
      | (Inr x, s') \<Rightarrow>
          (case mapValues w h rest b s' of
             (Inl e, s'') \<Rightarrow> (Inl e, s'')
           | (Inr xs, s'') \<Rightarrow> (Inr (x # xs), s'')))"
| "convertServerTimestamp w h v b s =
     (case b of
        Previous \<Rightarrow>
          (case getPreviousValue v of
             None \<Rightarrow> (Inr HNull, s)
           | Some previousValue \<Rightarrow> convertValue w h previousValue b s)
      | Estimate \<Rightarrow> (Inr (convertTimestamp h (getLocalWriteTime v)), s)
      | NoBehavior \<Rightarrow> (Inr HNull, s))"
  by pat_completeness auto
termination
proof (relation "measure (\<lambda>x. case x of
      Inl (Inl (w, h, v, b, s)) \<Rightarrow> 4 * size v + 3
    | Inl (Inr (Inl (w, h, m, b, s))) \<Rightarrow> 4 * size_option (size_list (size_prod (\<lambda>_. 0) size)) m + 2
    | Inl (Inr (Inr (w, h, fs, b, r, s))) \<Rightarrow> 4 * size_list (size_prod (\<lambda>_. 0) size) fs + 1
    | Inr (Inl (w, h, a, b, s)) \<Rightarrow> 4 * size_option (size_list size) a + 2
    | Inr (Inr (Inl (w, h, vs, b, s))) \<Rightarrow> 4 * size_list size vs + 1
    | Inr (Inr (Inr (w, h, v, b, s))) \<Rightarrow> 4 * size v + 2)", goal_cases)
  case 1
  show ?case by simp
next
  case 2
  show ?case by simp
next
  case (3 w h v b s t a)
  then show ?case by (cases v) simp_all
next
  case (4 w h v b s t m)
  then show ?case by (cases v) simp_all
next
  case (5 w h m b s)
  show ?case by (cases m) simp_all
next
  case (6 w h kv rest b result s)
  show ?case by (cases kv) simp
next
  case 7
  show ?case by simp
next
  case (8 w h a b s)
  show ?case by (cases a) simp_all
next
  case 9
  show ?case by simp
next
  case 10
  show ?case by simp
next
  case (11 w h v b s p)
  then show ?case by (cases v) simp_all
qed


section \<open>The wire values a call dispatches on\<close>

text \<open>
  \<open>visited b v\<close> lists, in the order of decoding, the wire values on which
  \<open>convertValue\<close> switches when it decodes \<open>v\<close> with behavior \<open>b\<close> and nothing
  fails: \<open>v\<close> itself, the elements of an array, the fields of a map and, under
  \<open>Previous\<close> only, the previous value of a ServerTimestamp, at every depth.
\<close>

fun visited :: "ServerTimestampBehavior \<Rightarrow> ('ts, 'bw) Value \<Rightarrow> ('ts, 'bw) Value list" where
  "visited b (WArray (Some vs)) = WArray (Some vs) # concat (map (visited b) vs)"
| "visited b (WMap (Some fs)) = WMap (Some fs) # concat (map (visited b) (map snd fs))"
| "visited b (WServerTimestamp t (Some p)) =
     WServerTimestamp t (Some p) # (if b = Previous then visited b p else [])"
| "visited b v = [v]"

text \<open>
  A wire value outside the wire contract: its tag is none of the eleven variants, or it is
  a Reference whose resource name fails \<open>isValidResourceName\<close>. \<open>failureOf\<close> is the
  failure that \<open>convertValue\<close> raises on such a value.
\<close>

definition outsideContract :: "('ts, 'bw, 'bs) Imports \<Rightarrow> ('ts, 'bw) Value \<Rightarrow> bool" where
  "outsideContract h u \<longleftrightarrow>
     typeOrder u = None \<or>
     (case referenceValue u of
        Some name \<Rightarrow> \<not> isValidResourceName h (fromString name)
      | None \<Rightarrow> False)"

definition failureOf :: "('ts, 'bw) Value \<Rightarrow> ('ts, 'bw) error" where
  "failureOf u =
     (case referenceValue u of Some name \<Rightarrow> ReferenceValueNotValid name | None \<Rightarrow> InvalidValueType u)"

text \<open>The scalar variants: null, boolean, string, number, timestamp, geopoint and blob.\<close>

definition isScalar :: "('ts, 'bw) Value \<Rightarrow> bool" where
  "isScalar v \<longleftrightarrow>
     typeOrder v \<in> {Some NullValue, Some BooleanValue, Some StringValue, Some NumberValue,
       Some TimestampValue, Some GeoPointValue, Some BlobValue}"

text \<open>
  A numeric field that denotes the rational \<open>q\<close>: the number \<open>q\<close> itself, or a
  non-empty string that the platform reads as \<open>q\<close>.
\<close>

definition denotes :: "('ts, 'bw, 'bs) Imports \<Rightarrow> numeric \<Rightarrow> rat \<Rightarrow> bool" where
  "denotes h x q =
     (case x of
        NumberLit n \<Rightarrow> n = Finite q
      | StringLit s \<Rightarrow> s \<noteq> [] \<and> parseNumber h s = Finite q)"

section \<open>Write sentinels\<close>

datatype usage_error = InvalidArgument string

text \<open>
  Modelled from the spec: \<open>validateAtLeastNumberOfArgs\<close> of \<open>util/input_validation\<close>,
  which is not among the sources. Supplying fewer arguments than required is a usage
  error of the caller, \<open>InvalidArgument\<close>, raised for the named function.
\<close>

definition validateAtLeastNumberOfArgs :: "string \<Rightarrow> 'e list \<Rightarrow> nat \<Rightarrow> usage_error + unit" where
  "validateAtLeastNumberOfArgs functionName args minNumberOfArgs =
     (if length args < minNumberOfArgs then Inl (InvalidArgument functionName) else Inr ())"

text \<open>
  Modelled from the spec: the implementations \<open>DeleteFieldValueImpl\<close>,
  \<open>ServerTimestampFieldValueImpl\<close>, \<open>ArrayUnionFieldValueImpl\<close>,
  \<open>ArrayRemoveFieldValueImpl\<close> and \<open>NumericIncrementFieldValueImpl\<close> of
  \<open>api/field_value\<close>, which are not among the sources. Each carries its method name and
  its payload: nothing, nothing, the raw elements, the raw elements, the operand.
\<close>

datatype 'e SerializableFieldValue =
    DeleteFieldValueImpl string
  | ServerTimestampFieldValueImpl string
  | ArrayUnionFieldValueImpl string "'e list"
  | ArrayRemoveFieldValueImpl string "'e list"
  | NumericIncrementFieldValueImpl string number

text \<open>Modelled from the spec: the field \<open>_methodName\<close> of an implementation.\<close>

fun implMethodName :: "'e SerializableFieldValue \<Rightarrow> string" where
  "implMethodName (DeleteFieldValueImpl m) = m"
| "implMethodName (ServerTimestampFieldValueImpl m) = m"
| "implMethodName (ArrayUnionFieldValueImpl m es) = m"
| "implMethodName (ArrayRemoveFieldValueImpl m es) = m"
| "implMethodName (NumericIncrementFieldValueImpl m n) = m"

text \<open>
  Modelled from the spec: \<open>isEqual\<close> of the implementations (\<open>api/field_value\<close>, not
  among the sources). Two sentinels are equal iff they are the same variant and their
  payloads are structurally equal; the method name does not take part.
\<close>

fun implIsEqual :: "'e SerializableFieldValue \<Rightarrow> 'e SerializableFieldValue \<Rightarrow> bool" where
  "implIsEqual (DeleteFieldValueImpl m) (DeleteFieldValueImpl m') = True"
| "implIsEqual (ServerTimestampFieldValueImpl m) (ServerTimestampFieldValueImpl m') = True"
| "implIsEqual (ArrayUnionFieldValueImpl m es) (ArrayUnionFieldValueImpl m' es') = (es = es')"
| "implIsEqual (ArrayRemoveFieldValueImpl m es) (ArrayRemoveFieldValueImpl m' es') = (es = es')"
| "implIsEqual (NumericIncrementFieldValueImpl m n) (NumericIncrementFieldValueImpl m' n') = (n = n')"
| "implIsEqual _ _ = False"

text \<open>
  The class \<open>FieldValueDelegate\<close>: the fields \<open>_methodName\<close> and \<open>_delegate\<close>, and the
  constructor, which copies the method name of the implementation it wraps.
\<close>

record 'e FieldValueDelegate =
  methodName :: string
  delegate :: "'e SerializableFieldValue"

definition newFieldValueDelegate :: "'e SerializableFieldValue \<Rightarrow> 'e FieldValueDelegate" where
  "newFieldValueDelegate d = \<lparr>methodName = implMethodName d, delegate = d\<rparr>"

text \<open>
  \<open>_toFieldTransform\<close> hands the context to the wrapped implementation. The method of
  the implementations is not among the sources and is the parameter \<open>impl\<close>; the type
  \<open>'t\<close> of what it gives back is left open.
\<close>

definition toFieldTransform ::
  "('e SerializableFieldValue \<Rightarrow> 'c \<Rightarrow> 't) \<Rightarrow> 'e FieldValueDelegate \<Rightarrow> 'c \<Rightarrow> 't" where
  "toFieldTransform impl this context = impl (delegate this) context"

text \<open>
  The argument of \<open>isEqual\<close> is any value: an instance of \<open>FieldValueDelegate\<close> or
  something else, which \<open>instanceof\<close> tells apart.
\<close>

datatype ('e, 'x) Operand = Delegate "'e FieldValueDelegate" | NotDelegate 'x

definition isEqual :: "'e FieldValueDelegate \<Rightarrow> ('e, 'x) Operand \<Rightarrow> bool" where
  "isEqual this other =
     (case other of
        NotDelegate x \<Rightarrow> False
      | Delegate d \<Rightarrow> implIsEqual (delegate this) (delegate d))"

definition deleteField :: "'e FieldValueDelegate" where
  "deleteField = newFieldValueDelegate (DeleteFieldValueImpl ''deleteField'')"

definition serverTimestamp :: "'e FieldValueDelegate" where
  "serverTimestamp = newFieldValueDelegate (ServerTimestampFieldValueImpl ''serverTimestamp'')"

definition arrayUnion :: "'e list \<Rightarrow> usage_error + 'e FieldValueDelegate" where
  "arrayUnion elements =
     (case validateAtLeastNumberOfArgs ''arrayUnion()'' elements 1 of
        Inl e \<Rightarrow> Inl e
      | Inr _ \<Rightarrow> Inr (newFieldValueDelegate (ArrayUnionFieldValueImpl ''arrayUnion'' elements)))"

definition arrayRemove :: "'e list \<Rightarrow> usage_error + 'e FieldValueDelegate" where
  "arrayRemove elements =
     (case validateAtLeastNumberOfArgs ''arrayRemove()'' elements 1 of
        Inl e \<Rightarrow> Inl e
      | Inr _ \<Rightarrow> Inr (newFieldValueDelegate (ArrayRemoveFieldValueImpl ''arrayRemove'' elements)))"

definition increment :: "number \<Rightarrow> 'e FieldValueDelegate" where
  "increment n = newFieldValueDelegate (NumericIncrementFieldValueImpl ''increment'' n)"

text \<open>The sentinels that the five public functions can return.\<close>

inductive isSentinel :: "'e FieldValueDelegate \<Rightarrow> bool" where
  "isSentinel deleteField"
| "isSentinel serverTimestamp"
| "arrayUnion elements = Inr x \<Longrightarrow> isSentinel x"
| "arrayRemove elements = Inr x \<Longrightarrow> isSentinel x"
| "isSentinel (increment n)"

section \<open>A decoder to evaluate examples with\<close>

text \<open>
  A timestamp on the wire is a pair of seconds and nanoseconds here, a blob is a string
  passed on as it is, and a reference is its document key. A resource name is taken as
  valid when it has at least four segments, the first \<open>projects\<close> and the third
  \<open>databases\<close>; \<open>Number\<close> reads a string of decimal digits.
\<close>

definition digitsValue :: "string \<Rightarrow> nat" where
  "digitsValue s = foldl (\<lambda>a c. 10 * a + (of_char c - 48)) 0 s"

definition exampleNumber :: "string \<Rightarrow> number" where
  "exampleNumber s =
     (if list_all (\<lambda>c. 48 \<le> (of_char c :: nat) \<and> (of_char c :: nat) \<le> 57) s
      then Finite (of_nat (digitsValue s)) else NaN)"

definition exampleImports :: "(number \<times> number, string, string) Imports" where
  "exampleImports =
     \<lparr>normalizeTimestamp = (\<lambda>t. case t of Some p \<Rightarrow> p | None \<Rightarrow> (Finite 0, Finite 0)),
      normalizeByteString = (\<lambda>x. case x of Some y \<Rightarrow> y | None \<Rightarrow> []),
      isValidResourceName =
        (\<lambda>p. length p \<ge> 4 \<and> get p 0 = Some ''projects'' \<and> get p 2 = Some ''databases''),
      parseNumber = exampleNumber\<rparr>"

definition exampleWriter :: "string \<Rightarrow> string \<Rightarrow> (DocumentKey, string, string) UserDataWriter" where
  "exampleWriter p d =
     \<lparr>databaseId = \<lparr>projectId = Some p, database = Some d\<rparr>,
      referenceFactory = (\<lambda>key. key),
      bytesFactory = (\<lambda>bytes. bytes)\<rparr>"

section \<open>How the log is threaded\<close>


declare convertValue.simps [simp del] convertObject.simps [simp del] convertArray.simps [simp del]
  convertServerTimestamp.simps [simp del]

lemma convertValue_WNull: "convertValue w h WNull b s = (Inr HNull, s)"
  by (simp add: convertValue.simps)

lemma convertValue_WArray: "convertValue w h (WArray a) b s = convertArray w h a b s"
  by (simp add: convertValue.simps)

lemma convertValue_WMap: "convertValue w h (WMap m) b s = convertObject w h m b s"
  by (simp add: convertValue.simps)

lemma convertValue_WServerTimestamp:
  "convertValue w h (WServerTimestamp t p) b s = convertServerTimestamp w h (WServerTimestamp t p) b s"
  by (simp add: convertValue.simps)

lemma convertValue_WUnknown: "convertValue w h WUnknown b s = (Inl (InvalidValueType WUnknown), s)"
  by (simp add: convertValue.simps)

lemma convertValue_WReference:
  "convertValue w h (WReference n) b s = convertReference w h (Some n) s"
  by (simp add: convertValue.simps)

lemma convertReference_log:
  "convertReference w h v s = (fst (convertReference w h v []), s @ snd (convertReference w h v []))"
  by (simp add: convertReference_def logError_def Let_def split: option.splits)

lemma convertValue_scalar:
  assumes "typeOrder v \<noteq> Some ServerTimestampValue" "typeOrder v \<noteq> Some RefValue"
    "typeOrder v \<noteq> Some ArrayValue" "typeOrder v \<noteq> Some ObjectValue"
  shows "convertValue w h v b t = (fst (convertValue w h v b []), t)"
  using assms by (cases v) (simp_all add: convertValue.simps)

lemma convertValue_ServerTimestampValue:
  "typeOrder v = Some ServerTimestampValue \<Longrightarrow>
   convertValue w h v b s = convertServerTimestamp w h v b s"
  by (simp add: convertValue.simps)

lemma convertValue_RefValue:
  "typeOrder v = Some RefValue \<Longrightarrow> convertValue w h v b s = convertReference w h (referenceValue v) s"
  by (simp add: convertValue.simps)

lemma convertValue_ArrayValue:
  "typeOrder v = Some ArrayValue \<Longrightarrow>
   \<exists>a. arrayValue v = Some a \<and> convertValue w h v b s = convertArray w h a b s"
  by (cases v) (simp_all add: convertValue.simps)

lemma convertValue_ObjectValue:
  "typeOrder v = Some ObjectValue \<Longrightarrow>
   \<exists>m. mapValue v = Some m \<and> convertValue w h v b s = convertObject w h m b s"
  by (cases v) (simp_all add: convertValue.simps)

lemma log_threaded:
  fixes s :: log
  shows "\<exists>r l. \<forall>t. convertValue w h v b t = (r, t @ l)"
    and "\<exists>r l. \<forall>t. convertObject w h m b t = (r, t @ l)"
    and "\<exists>r l. \<forall>t. forEachField w h fs b res t = (r, t @ l)"
    and "\<exists>r l. \<forall>t. convertArray w h a b t = (r, t @ l)"
    and "\<exists>r l. \<forall>t. mapValues w h vs b t = (r, t @ l)"
    and "\<exists>r l. \<forall>t. convertServerTimestamp w h v' b t = (r, t @ l)"
proof (induction w h v b s and w h m b s and w h fs b res s and w h a b s and w h vs b s
    and w h v' b s
    rule: convertValue_convertObject_forEachField_convertArray_mapValues_convertServerTimestamp.induct)
  case (1 w h v b s)
  consider (st) "typeOrder v = Some ServerTimestampValue" | (ref) "typeOrder v = Some RefValue"
    | (arr) "typeOrder v = Some ArrayValue" | (obj) "typeOrder v = Some ObjectValue"
    | (other) "typeOrder v \<noteq> Some ServerTimestampValue" "typeOrder v \<noteq> Some RefValue"
        "typeOrder v \<noteq> Some ArrayValue" "typeOrder v \<noteq> Some ObjectValue"
    by blast
  then show ?case
  proof cases
    case st
    from 1(1) [OF st refl] obtain r l
      where "\<forall>t. convertServerTimestamp w h v b t = (r, t @ l)" by blast
    then have "\<forall>t. convertValue w h v b t = (r, t @ l)"
      by (simp add: convertValue_ServerTimestampValue [OF st])
    then show ?thesis by blast
  next
    case ref
    have "\<forall>t. convertValue w h v b t =
        (fst (convertReference w h (referenceValue v) []),
         t @ snd (convertReference w h (referenceValue v) []))"
      unfolding convertValue_RefValue [OF ref] by (intro allI) (rule convertReference_log)
    then show ?thesis by blast
  next
    case arr
    from convertValue_ArrayValue [OF arr] obtain a
      where a: "arrayValue v = Some a" "\<forall>t. convertValue w h v b t = convertArray w h a b t"
      by (cases v) (simp_all add: convertValue.simps)
    from 1(2) [OF arr refl a(1)] obtain r l
      where "\<forall>t. convertArray w h a b t = (r, t @ l)" by blast
    with a(2) have "\<forall>t. convertValue w h v b t = (r, t @ l)" by simp
    then show ?thesis by blast
  next
    case obj
    from convertValue_ObjectValue [OF obj] obtain m
      where m: "mapValue v = Some m" "\<forall>t. convertValue w h v b t = convertObject w h m b t"
      by (cases v) (simp_all add: convertValue.simps)
    from 1(3) [OF obj refl m(1)] obtain r l
      where "\<forall>t. convertObject w h m b t = (r, t @ l)" by blast
    with m(2) have "\<forall>t. convertValue w h v b t = (r, t @ l)" by simp
    then show ?thesis by blast
  next
    case other
    have "\<forall>t. convertValue w h v b t = (fst (convertValue w h v b []), t @ [])"
      unfolding append_Nil2 by (intro allI) (rule convertValue_scalar [OF other])
    then show ?thesis by blast
  qed
next
  case (2 w h m b s)
  from 2 obtain r l where rl: "\<forall>t. forEachField w h (case m of Some fs \<Rightarrow> fs | None \<Rightarrow> []) b [] t = (r, t @ l)"
    by blast
  show ?case
  proof (cases r)
    case (Inl e)
    with rl have "\<forall>t. convertObject w h m b t = (Inl e, t @ l)" by (simp add: convertObject.simps)
    then show ?thesis by blast
  next
    case (Inr x)
    with rl have "\<forall>t. convertObject w h m b t = (Inr (HObject x), t @ l)"
      by (simp add: convertObject.simps)
    then show ?thesis by blast
  qed
next
  case (3 w h b res s)
  have "\<forall>t. forEachField w h [] b res t = (Inr res, t @ [])" by simp
  then show ?case by blast
next
  case (4 w h kv rest b res s)
  from 4(1) obtain r1 l1 where rl1: "\<forall>t. convertValue w h (snd kv) b t = (r1, t @ l1)" by blast
  show ?case
  proof (cases r1)
    case (Inl e)
    with rl1 have "\<forall>t. forEachField w h (kv # rest) b res t = (Inl e, t @ l1)" by simp
    then show ?thesis by blast
  next
    case (Inr x)
    from rl1 Inr have "(Inr x, s @ l1) = convertValue w h (snd kv) b s" by simp
    from 4(2) [OF this refl] obtain r2 l2
      where rl2: "\<forall>t. forEachField w h rest b (assign (fst kv) x res) t = (r2, t @ l2)" by blast
    from rl1 rl2 Inr have "\<forall>t. forEachField w h (kv # rest) b res t = (r2, t @ (l1 @ l2))" by simp
    then show ?thesis by blast
  qed
next
  case (5 w h a b s)
  from 5 obtain r l where rl: "\<forall>t. mapValues w h (case a of Some vs \<Rightarrow> vs | None \<Rightarrow> []) b t = (r, t @ l)"
    by blast
  show ?case
  proof (cases r)
    case (Inl e)
    with rl have "\<forall>t. convertArray w h a b t = (Inl e, t @ l)" by (simp add: convertArray.simps)
    then show ?thesis by blast
  next
    case (Inr x)
    with rl have "\<forall>t. convertArray w h a b t = (Inr (HArray x), t @ l)"
      by (simp add: convertArray.simps)
    then show ?thesis by blast
  qed
next
  case (6 w h b s)
  have "\<forall>t. mapValues w h [] b t = (Inr [], t @ [])" by simp
  then show ?case by blast
next
  case (7 w h v rest b s)
  from 7(1) obtain r1 l1 where rl1: "\<forall>t. convertValue w h v b t = (r1, t @ l1)" by blast
  show ?case
  proof (cases r1)
    case (Inl e)
    with rl1 have "\<forall>t. mapValues w h (v # rest) b t = (Inl e, t @ l1)" by simp
    then show ?thesis by blast
  next
    case (Inr x)
    from rl1 Inr have "(Inr x, s @ l1) = convertValue w h v b s" by simp
    from 7(2) [OF this refl] obtain r2 l2
      where rl2: "\<forall>t. mapValues w h rest b t = (r2, t @ l2)" by blast
    show ?thesis
    proof (cases r2)
      case (Inl e)
      with rl1 rl2 \<open>r1 = Inr x\<close> have "\<forall>t. mapValues w h (v # rest) b t = (Inl e, t @ (l1 @ l2))" by simp
      then show ?thesis by blast
    next
      case (Inr xs)
      with rl1 rl2 \<open>r1 = Inr x\<close> have "\<forall>t. mapValues w h (v # rest) b t = (Inr (x # xs), t @ (l1 @ l2))"
        by simp
      then show ?thesis by blast
    qed
  qed
next
  case (8 w h v b s)
  show ?case
  proof (cases b)
    case Previous
    show ?thesis
    proof (cases "getPreviousValue v")
      case None
      with Previous have "\<forall>t. convertServerTimestamp w h v b t = (Inr HNull, t @ [])"
        by (simp add: convertServerTimestamp.simps)
      then show ?thesis by blast
    next
      case (Some p)
      with 8 [OF Previous Some] Previous show ?thesis by (simp add: convertServerTimestamp.simps)
    qed
  next
    case Estimate
    then have "\<forall>t. convertServerTimestamp w h v b t = (Inr (convertTimestamp h (getLocalWriteTime v)), t @ [])"
      by (simp add: convertServerTimestamp.simps)
    then show ?thesis by blast
  next
    case NoBehavior
    then have "\<forall>t. convertServerTimestamp w h v b t = (Inr HNull, t @ [])"
      by (simp add: convertServerTimestamp.simps)
    then show ?thesis by blast
  qed
qed

lemma convertValue_threaded:
  "convertValue w h v b s = (fst (convertValue w h v b []), s @ snd (convertValue w h v b []))"
proof -
  from log_threaded(1) obtain r l where rl: "\<forall>t. convertValue w h v b t = (r, t @ l)" by blast
  from rl have "convertValue w h v b [] = (r, l)" by simp
  with rl show ?thesis by simp
qed

section \<open>Properties of the decoder and of the sentinels\<close>

lemma convertValue_fst:
  "fst (convertValue w h v b s) = fst (convertValue w h v b s')"
proof -
  from log_threaded(1) obtain r l where rl: "\<forall>t. convertValue w h v b t = (r, t @ l)" by blast
  then show ?thesis by simp
qed

text \<open>
  C1. A ServerTimestamp value decodes to \<open>null\<close> under behavior \<open>none\<close>; to the
  Timestamp decoded from its local write time under \<open>estimate\<close>; and under \<open>previous\<close>
  to the decoding, again under \<open>previous\<close>, of its previous value when there is one, and
  to \<open>null\<close> when there is none.
\<close>

theorem serverTimestamp_resolution:
  assumes "typeOrder v = Some ServerTimestampValue"
  shows "convertValue w h v NoBehavior s = (Inr HNull, s) \<and>
         convertValue w h v Estimate s = (Inr (convertTimestamp h (getLocalWriteTime v)), s) \<and>
         (case getPreviousValue v of
            Some previousValue \<Rightarrow>
              convertValue w h v Previous s = convertValue w h previousValue Previous s
          | None \<Rightarrow> convertValue w h v Previous s = (Inr HNull, s))"
  using assms
  by (simp add: convertValue_ServerTimestampValue convertServerTimestamp.simps split: option.split)

theorem serverTimestamp_resolution_witness:
  "typeOrder (WServerTimestamp (Finite 7, Finite 9) (Some (WString ''old''))) = Some ServerTimestampValue \<and>
   convertValue (exampleWriter ''P'' ''D'') exampleImports
     (WServerTimestamp (Finite 7, Finite 9) (Some (WString ''old''))) NoBehavior [] = (Inr HNull, []) \<and>
   convertValue (exampleWriter ''P'' ''D'') exampleImports
     (WServerTimestamp (Finite 7, Finite 9) (Some (WString ''old''))) Estimate [] =
       (Inr (HTimestamp (Finite 7) (Finite 9)), []) \<and>
   convertValue (exampleWriter ''P'' ''D'') exampleImports
     (WServerTimestamp (Finite 7, Finite 9) (Some (WString ''old''))) Previous [] =
       (Inr (HString ''old''), [])"
  using serverTimestamp_resolution [of "WServerTimestamp (Finite 7, Finite 9) (Some (WString ''old''))"
      "exampleWriter ''P'' ''D''" exampleImports "[]"]
  by (simp add: convertValue.simps convertTimestamp_def exampleImports_def)

text \<open>
  C9. An Array value whose \<open>values\<close> are absent decodes to the empty array and a Map
  value whose \<open>fields\<close> are absent decodes to the empty map; neither raises an error.
\<close>

theorem absent_values_and_fields:
  "convertValue w h (WArray None) b s = (Inr (HArray []), s) \<and>
   convertValue w h (WMap None) b s = (Inr (HObject []), s)"
  by (simp add: convertValue.simps convertArray.simps convertObject.simps)

text \<open>
  C10. The transform of a delegate wrapping the implementation \<open>d\<close> is, for every
  context, the transform of \<open>d\<close>, and the method name of the delegate is that of \<open>d\<close>.
\<close>

theorem delegate_forwards:
  "toFieldTransform impl (newFieldValueDelegate d) c = impl d c \<and>
   methodName (newFieldValueDelegate d) = implMethodName d"
  by (simp add: toFieldTransform_def newFieldValueDelegate_def)


text \<open>
  C5. \<open>arrayUnion\<close> and \<open>arrayRemove\<close> called with no element fail with the usage error
  \<open>InvalidArgument\<close> and construct no sentinel; called with at least one element they
  return a sentinel that carries the elements as they were supplied.
\<close>

theorem array_sentinels_need_an_element:
  "arrayUnion ([] :: 'e list) = Inl (InvalidArgument ''arrayUnion()'') \<and>
   arrayRemove ([] :: 'e list) = Inl (InvalidArgument ''arrayRemove()'') \<and>
   ((elements :: 'e list) \<noteq> [] \<longrightarrow>
      arrayUnion elements =
        Inr \<lparr>methodName = ''arrayUnion'', delegate = ArrayUnionFieldValueImpl ''arrayUnion'' elements\<rparr> \<and>
      arrayRemove elements =
        Inr \<lparr>methodName = ''arrayRemove'', delegate = ArrayRemoveFieldValueImpl ''arrayRemove'' elements\<rparr>)"
  by (cases elements)
    (simp_all add: arrayUnion_def arrayRemove_def validateAtLeastNumberOfArgs_def
      newFieldValueDelegate_def)

theorem array_sentinels_need_an_element_witness:
  "[1, 2 :: int] \<noteq> [] \<and>
   arrayUnion [1, 2 :: int] =
     Inr \<lparr>methodName = ''arrayUnion'', delegate = ArrayUnionFieldValueImpl ''arrayUnion'' [1, 2]\<rparr> \<and>
   arrayRemove [1, 2 :: int] =
     Inr \<lparr>methodName = ''arrayRemove'', delegate = ArrayRemoveFieldValueImpl ''arrayRemove'' [1, 2]\<rparr> \<and>
   arrayUnion ([] :: int list) = Inl (InvalidArgument ''arrayUnion()'') \<and>
   arrayRemove ([] :: int list) = Inl (InvalidArgument ''arrayRemove()'')"
  using array_sentinels_need_an_element [of "[1, 2 :: int]"] by simp

lemma isSentinel_delegate:
  assumes "isSentinel (x :: 'e FieldValueDelegate)"
  shows "x = newFieldValueDelegate (delegate x) \<and>
    (case delegate x of
       DeleteFieldValueImpl m \<Rightarrow> m = ''deleteField''
     | ServerTimestampFieldValueImpl m \<Rightarrow> m = ''serverTimestamp''
     | ArrayUnionFieldValueImpl m es \<Rightarrow> m = ''arrayUnion''
     | ArrayRemoveFieldValueImpl m es \<Rightarrow> m = ''arrayRemove''
     | NumericIncrementFieldValueImpl m n \<Rightarrow> m = ''increment'')"
  using assms
proof (cases rule: isSentinel.cases)
  case 1
  then show ?thesis by (simp add: deleteField_def newFieldValueDelegate_def)
next
  case 2
  then show ?thesis by (simp add: serverTimestamp_def newFieldValueDelegate_def)
next
  case (3 elements)
  then show ?thesis
    by (auto simp: arrayUnion_def validateAtLeastNumberOfArgs_def newFieldValueDelegate_def
        split: if_splits)
next
  case (4 elements)
  then show ?thesis
    by (auto simp: arrayRemove_def validateAtLeastNumberOfArgs_def newFieldValueDelegate_def
        split: if_splits)
next
  case (5 n)
  then show ?thesis by (simp add: increment_def newFieldValueDelegate_def)
qed

lemma implIsEqual_structural:
  assumes "case d of
       DeleteFieldValueImpl m \<Rightarrow> m = ''deleteField''
     | ServerTimestampFieldValueImpl m \<Rightarrow> m = ''serverTimestamp''
     | ArrayUnionFieldValueImpl m es \<Rightarrow> m = ''arrayUnion''
     | ArrayRemoveFieldValueImpl m es \<Rightarrow> m = ''arrayRemove''
     | NumericIncrementFieldValueImpl m n \<Rightarrow> m = ''increment''"
    and "case d' of
       DeleteFieldValueImpl m \<Rightarrow> m = ''deleteField''
     | ServerTimestampFieldValueImpl m \<Rightarrow> m = ''serverTimestamp''
     | ArrayUnionFieldValueImpl m es \<Rightarrow> m = ''arrayUnion''
     | ArrayRemoveFieldValueImpl m es \<Rightarrow> m = ''arrayRemove''
     | NumericIncrementFieldValueImpl m n \<Rightarrow> m = ''increment''"
  shows "implIsEqual d d' = (d = d')"
  using assms by (cases d; cases d') simp_all

text \<open>
  C6. Equality of sentinels is structural: on the sentinels that the five public functions
  return, \<open>isEqual\<close> holds exactly between equal variants with equal payloads, that is
  between structurally equal sentinels, and never between a sentinel and a value that
  is not one. Two \<open>increment(5)\<close> are equal; \<open>increment(5)\<close> is equal neither to
  \<open>increment(6)\<close> nor to \<open>deleteField()\<close>.
\<close>

theorem sentinel_equality_structural:
  "(isSentinel (x :: 'e FieldValueDelegate) \<and> isSentinel y \<longrightarrow>
      isEqual x (Delegate y :: ('e, 'x) Operand) = (x = y)) \<and>
   \<not> isEqual x (NotDelegate z :: ('e, 'x) Operand) \<and>
   isEqual (increment (Finite 5) :: 'e FieldValueDelegate)
     (Delegate (increment (Finite 5)) :: ('e, 'x) Operand) \<and>
   \<not> isEqual (increment (Finite 5) :: 'e FieldValueDelegate)
     (Delegate (increment (Finite 6)) :: ('e, 'x) Operand) \<and>
   \<not> isEqual (increment (Finite 5) :: 'e FieldValueDelegate)
     (Delegate deleteField :: ('e, 'x) Operand)"
proof -
  have "isEqual x (Delegate y :: ('e, 'x) Operand) = (x = y)"
    if "isSentinel x" "isSentinel y"
  proof -
    from isSentinel_delegate [OF that(1)] isSentinel_delegate [OF that(2)]
    have "implIsEqual (delegate x) (delegate y) = (delegate x = delegate y)"
      by (intro implIsEqual_structural) simp_all
    moreover have "(delegate x = delegate y) = (x = y)"
      using isSentinel_delegate [OF that(1)] isSentinel_delegate [OF that(2)] by metis
    ultimately show ?thesis by (simp add: isEqual_def)
  qed
  then show ?thesis
    by (simp add: isEqual_def deleteField_def increment_def newFieldValueDelegate_def)
qed

theorem sentinel_equality_structural_witness:
  "isSentinel (increment (Finite 5) :: int FieldValueDelegate) \<and>
   isSentinel (deleteField :: int FieldValueDelegate) \<and>
   isEqual (increment (Finite 5) :: int FieldValueDelegate)
     (Delegate deleteField :: (int, string) Operand) =
     ((increment (Finite 5) :: int FieldValueDelegate) = deleteField) \<and>
   \<not> isEqual (increment (Finite 5) :: int FieldValueDelegate)
     (NotDelegate ''increment'' :: (int, string) Operand)"
  using sentinel_equality_structural [of "increment (Finite 5) :: int FieldValueDelegate"
      deleteField "''increment''"]
  by (simp add: isSentinel.intros)

lemma example_resource_path:
  "fromString ''projects/P/databases/D/documents/coll/doc'' =
     [''projects'', ''P'', ''databases'', ''D'', ''documents'', ''coll'', ''doc'']"
  by (simp add: fromString_def)

text \<open>
  C2. A Reference value whose resource name passes \<open>isValidResourceName\<close> decodes,
  without failing, to the reference that the factory of the local database builds for
  the document key made of the resource path without its first five segments. When the
  database identity read from segments 1 and 3 differs from the local one, the result is
  the same and exactly one diagnostic is added to the log; otherwise the log is unchanged.
\<close>

theorem reference_soft_fallback:
  assumes "isValidResourceName h (fromString name)"
  shows "convertValue w h (WReference name) b s =
    (Inr (HReference (referenceFactory w (drop 5 (fromString name)))),
     if DatabaseId_isEqual
          \<lparr>projectId = get (fromString name) 1, database = get (fromString name) 3\<rparr> (databaseId w)
     then s
     else s @ [crossDatabaseMessage (drop 5 (fromString name))
                 \<lparr>projectId = get (fromString name) 1, database = get (fromString name) 3\<rparr>
                 (databaseId w)])"
  using assms
  by (simp add: convertValue_WReference convertReference_def popFirst_def logError_def Let_def)

theorem reference_soft_fallback_witness:
  "isValidResourceName exampleImports (fromString ''projects/P/databases/D/documents/coll/doc'') \<and>
   convertValue (exampleWriter ''P'' ''D'') exampleImports
     (WReference ''projects/P/databases/D/documents/coll/doc'') NoBehavior [] =
     (Inr (HReference [''coll'', ''doc'']), []) \<and>
   convertValue (exampleWriter ''P'' ''D2'') exampleImports
     (WReference ''projects/P/databases/D/documents/coll/doc'') NoBehavior [] =
     (Inr (HReference [''coll'', ''doc'']),
      [crossDatabaseMessage [''coll'', ''doc''] \<lparr>projectId = Some ''P'', database = Some ''D''\<rparr>
         \<lparr>projectId = Some ''P'', database = Some ''D2''\<rparr>])"
proof -
  have valid:
    "isValidResourceName exampleImports (fromString ''projects/P/databases/D/documents/coll/doc'')"
    by (simp add: example_resource_path exampleImports_def get_def)
  from reference_soft_fallback [OF valid, of "exampleWriter ''P'' ''D''" NoBehavior "[]"]
    reference_soft_fallback [OF valid, of "exampleWriter ''P'' ''D2''" NoBehavior "[]"]
    valid
  show ?thesis
    by (simp add: example_resource_path exampleWriter_def get_def DatabaseId_isEqual_def)
qed

text \<open>
  C3. A Number value decodes to the normalization of its integer representation when it
  has one (a number other than \<open>NaN\<close>, or a non-empty string) and to the normalization
  of its floating-point representation otherwise. An integer value and a floating-point
  value that denote the same number, zero included, decode to that same host number.
\<close>

theorem number_normalization:
  "(integerValue v = Some i \<and> i \<noteq> NumberLit NaN \<and> i \<noteq> StringLit [] \<longrightarrow>
      convertValue w h v b s = (Inr (HNumber (normalizeNumber h (Some i))), s)) \<and>
   (typeOrder v = Some NumberValue \<and> integerValue v = None \<longrightarrow>
      convertValue w h v b s = (Inr (HNumber (normalizeNumber h (doubleValue v))), s)) \<and>
   (denotes h i q \<and> denotes h d q \<longrightarrow>
      convertValue w h (WInteger i) b s = (Inr (HNumber (Finite q)), s) \<and>
      convertValue w h (WDouble d) b s = (Inr (HNumber (Finite q)), s)) \<and>
   convertValue w h (WInteger (NumberLit (Finite 0))) b s = (Inr (HNumber (Finite 0)), s) \<and>
   convertValue w h (WDouble (NumberLit (Finite 0))) b s = (Inr (HNumber (Finite 0)), s)"
proof -
  have int: "convertValue w h v b s = (Inr (HNumber (normalizeNumber h (Some i))), s)"
    if "integerValue v = Some i" "i \<noteq> NumberLit NaN" "i \<noteq> StringLit []"
    for v :: "('a, 'b) Value" and i
  proof -
    from that(1) have v: "v = WInteger i" by (cases v) simp_all
    show ?thesis
    proof (cases i)
      case (NumberLit n)
      with that(2) show ?thesis
        by (simp add: v convertValue.simps orElse_def normalizeNumber_def)
    next
      case (StringLit x)
      with that(3) show ?thesis
        by (simp add: v convertValue.simps orElse_def normalizeNumber_def)
    qed
  qed
  have dbl: "convertValue w h v b s = (Inr (HNumber (normalizeNumber h (doubleValue v))), s)"
    if "typeOrder v = Some NumberValue" "integerValue v = None" for v :: "('a, 'b) Value"
    using that by (cases v) (simp_all add: convertValue.simps orElse_def)
  have same: "convertValue w h (WInteger i) b s = (Inr (HNumber (Finite q)), s) \<and>
      convertValue w h (WDouble d) b s = (Inr (HNumber (Finite q)), s)"
    if "denotes h i q" "denotes h d q"
  proof -
    from that(1) have "i \<noteq> NumberLit NaN" "i \<noteq> StringLit []" by (auto simp: denotes_def)
    from int [of "WInteger i" i, simplified, OF this] that(1)
    have "convertValue w h (WInteger i) b s = (Inr (HNumber (Finite q)), s)"
      by (cases i) (simp_all add: denotes_def normalizeNumber_def)
    moreover from dbl [of "WDouble d"] that(2)
    have "convertValue w h (WDouble d) b s = (Inr (HNumber (Finite q)), s)"
      by (cases d) (simp_all add: denotes_def normalizeNumber_def)
    ultimately show ?thesis by simp
  qed
  have zero: "convertValue w h (WInteger (NumberLit (Finite 0))) b s = (Inr (HNumber (Finite 0)), s)"
    "convertValue w h (WDouble (NumberLit (Finite 0))) b s = (Inr (HNumber (Finite 0)), s)"
    by (simp_all add: convertValue.simps orElse_def normalizeNumber_def)
  from int dbl same zero show ?thesis by blast
qed

lemma exampleNumber_5: "exampleNumber ''5'' = Finite 5"
  by (simp add: exampleNumber_def digitsValue_def)

theorem number_normalization_witness:
  "integerValue (WInteger (StringLit ''5'') :: (number \<times> number, string) Value) = Some (StringLit ''5'') \<and>
   StringLit ''5'' \<noteq> NumberLit NaN \<and> StringLit ''5'' \<noteq> StringLit [] \<and>
   denotes exampleImports (StringLit ''5'') 5 \<and> denotes exampleImports (NumberLit (Finite 5)) 5 \<and>
   convertValue (exampleWriter ''P'' ''D'') exampleImports (WInteger (StringLit ''5'')) NoBehavior [] =
     (Inr (HNumber (Finite 5)), []) \<and>
   convertValue (exampleWriter ''P'' ''D'') exampleImports (WDouble (NumberLit (Finite 5))) NoBehavior [] =
     (Inr (HNumber (Finite 5)), []) \<and>
   typeOrder (WDouble (NumberLit (Finite (1 / 2))) :: (number \<times> number, string) Value) = Some NumberValue \<and>
   integerValue (WDouble (NumberLit (Finite (1 / 2))) :: (number \<times> number, string) Value) = None \<and>
   convertValue (exampleWriter ''P'' ''D'') exampleImports (WDouble (NumberLit (Finite (1 / 2)))) NoBehavior [] =
     (Inr (HNumber (Finite (1 / 2))), [])"
  using number_normalization [of "WInteger (StringLit ''5'')" "StringLit ''5''"
      "exampleWriter ''P'' ''D''" exampleImports NoBehavior "[]" 5 "NumberLit (Finite 5)"]
    number_normalization [of "WDouble (NumberLit (Finite (1 / 2)))" "StringLit ''5''"
      "exampleWriter ''P'' ''D''" exampleImports NoBehavior "[]" 5 "NumberLit (Finite 5)"]
  by (simp add: denotes_def exampleImports_def exampleNumber_5 normalizeNumber_def)

text \<open>
  C8. On a scalar value (null, boolean, string, number, timestamp, geopoint, blob) a call
  returns a value, the same whatever was logged by earlier calls, and leaves the log as
  it found it: the result is a function of the wire value and the behavior alone.
\<close>

theorem scalar_conversion_pure:
  assumes "isScalar v"
  shows "fst (convertValue w h v b s) = fst (convertValue w h v b s') \<and>
         snd (convertValue w h v b s) = s \<and>
         (\<exists>x. fst (convertValue w h v b s) = Inr x)"
proof (cases "geoPointValue v")
  case None
  with assms show ?thesis
    by (cases v) (simp_all add: isScalar_def convertValue.simps)
next
  case (Some g)
  then have "v = WGeoPoint g" by (cases v) simp_all
  then show ?thesis by (simp add: convertValue.simps convertGeoPoint_def)
qed

theorem scalar_conversion_pure_witness:
  "isScalar (WGeoPoint \<lparr>latitude = Some (NumberLit (Finite 1)), longitude = None\<rparr>
     :: (number \<times> number, string) Value) \<and>
   fst (convertValue (exampleWriter ''P'' ''D'') exampleImports
     (WGeoPoint \<lparr>latitude = Some (NumberLit (Finite 1)), longitude = None\<rparr>) Previous []) =
   fst (convertValue (exampleWriter ''P'' ''D'') exampleImports
     (WGeoPoint \<lparr>latitude = Some (NumberLit (Finite 1)), longitude = None\<rparr>) Previous [''logged'']) \<and>
   snd (convertValue (exampleWriter ''P'' ''D'') exampleImports
     (WGeoPoint \<lparr>latitude = Some (NumberLit (Finite 1)), longitude = None\<rparr>) Previous [''logged'']) =
     [''logged'']"
proof -
  have scalar: "isScalar (WGeoPoint \<lparr>latitude = Some (NumberLit (Finite 1)), longitude = None\<rparr>
     :: (number \<times> number, string) Value)"
    by (simp add: isScalar_def)
  from scalar_conversion_pure [OF scalar, of "exampleWriter ''P'' ''D''" exampleImports Previous
      "[]" "[''logged'']"]
    scalar_conversion_pure [OF scalar, of "exampleWriter ''P'' ''D''" exampleImports Previous
      "[''logged'']" "[]"]
    scalar
  show ?thesis by simp
qed

section \<open>Containers\<close>

lemma mapValues_Inr:
  "fst (mapValues w h vs b s) = Inr xs \<longleftrightarrow>
   list_all2 (\<lambda>v x. fst (convertValue w h v b s') = Inr x) vs xs"
proof (induction vs arbitrary: xs s)
  case Nil
  show ?case by auto
next
  case (Cons v rest)
  obtain r1 s1 where c: "convertValue w h v b s = (r1, s1)"
    by (cases "convertValue w h v b s")
  have r1: "fst (convertValue w h v b s') = r1"
    using convertValue_fst [of w h v b s' s] c by simp
  show ?case
  proof (cases r1)
    case (Inl e)
    with c r1 show ?thesis by (auto simp: list_all2_Cons1)
  next
    case (Inr x)
    obtain r2 s2 where m: "mapValues w h rest b s1 = (r2, s2)"
      by (cases "mapValues w h rest b s1")
    from Cons.IH [of s1] m
    have ih: "(r2 = Inr ys) = list_all2 (\<lambda>v x. fst (convertValue w h v b s') = Inr x) rest ys" for ys
      by simp
    show ?thesis
    proof (cases r2)
      case (Inl e)
      with ih have "\<not> list_all2 (\<lambda>v x. fst (convertValue w h v b s') = Inr x) rest ys" for ys
        by (metis sum.distinct(1))
      with c r1 \<open>r1 = Inr x\<close> m Inl show ?thesis by (auto simp: list_all2_Cons1)
    next
      case (Inr ys)
      with ih have "list_all2 (\<lambda>v x. fst (convertValue w h v b s') = Inr x) rest zs = (zs = ys)" for zs
        by (metis sum.inject(2))
      with c r1 \<open>r1 = Inr x\<close> m Inr show ?thesis by (auto simp: list_all2_Cons1)
    qed
  qed
qed

lemma assign_fresh: "k \<notin> fst ` set acc \<Longrightarrow> assign k x acc = acc @ [(k, x)]"
  by (induction acc) auto

lemma forEachField_Inr:
  "distinct (map fst acc @ map fst fs) \<Longrightarrow>
   fst (forEachField w h fs b acc s) = Inr res \<longleftrightarrow>
   (\<exists>xs. list_all2 (\<lambda>kv x. fst (convertValue w h (snd kv) b s') = Inr x) fs xs \<and>
         res = acc @ zip (map fst fs) xs)"
proof (induction fs arbitrary: acc s)
  case Nil
  show ?case by auto
next
  case (Cons kv rest)
  obtain r1 s1 where c: "convertValue w h (snd kv) b s = (r1, s1)"
    by (cases "convertValue w h (snd kv) b s")
  have r1: "fst (convertValue w h (snd kv) b s') = r1"
    using convertValue_fst [of w h "snd kv" b s' s] c by simp
  show ?case
  proof (cases r1)
    case (Inl e)
    with c r1 show ?thesis by (auto simp: list_all2_Cons1)
  next
    case (Inr x)
    from Cons.prems have fresh: "fst kv \<notin> fst ` set acc" by auto
    then have a: "assign (fst kv) x acc = acc @ [(fst kv, x)]" by (rule assign_fresh)
    from Cons.prems have "distinct (map fst (acc @ [(fst kv, x)]) @ map fst rest)" by auto
    from Cons.IH [OF this, of s1]
    have ih: "fst (forEachField w h rest b (acc @ [(fst kv, x)]) s1) = Inr res \<longleftrightarrow>
      (\<exists>xs. list_all2 (\<lambda>kv x. fst (convertValue w h (snd kv) b s') = Inr x) rest xs \<and>
            res = acc @ (fst kv, x) # zip (map fst rest) xs)"
      by simp
    have "(\<exists>xs. list_all2 (\<lambda>kv x. fst (convertValue w h (snd kv) b s') = Inr x) (kv # rest) xs \<and>
            res = acc @ zip (map fst (kv # rest)) xs) \<longleftrightarrow>
      (\<exists>xs. list_all2 (\<lambda>kv x. fst (convertValue w h (snd kv) b s') = Inr x) rest xs \<and>
            res = acc @ (fst kv, x) # zip (map fst rest) xs)"
      using r1 Inr by (auto simp: list_all2_Cons1)
    with ih c Inr a show ?thesis by simp
  qed
qed

text \<open>
  C7. An Array value decodes to the array of the decodings of its elements, each with the
  behavior of the call, in the order of the wire array; a Map value decodes to the object
  whose fields are, in the order of the wire map, its fields decoded with the behavior of
  the call. As the elements and fields are arbitrary wire values, the same behavior
  reaches every nesting depth. Either succeeds exactly when every element does.
\<close>

theorem containers_recursive:
  "(fst (convertValue w h (WArray (Some vs)) b s) = Inr r \<longleftrightarrow>
      (\<exists>xs. r = HArray xs \<and>
         list_all2 (\<lambda>v x. fst (convertValue w h v b s') = Inr x) vs xs)) \<and>
   (distinct (map fst fs) \<longrightarrow>
      (fst (convertValue w h (WMap (Some fs)) b s) = Inr r' \<longleftrightarrow>
        (\<exists>xs. r' = HObject (zip (map fst fs) xs) \<and>
           list_all2 (\<lambda>kv x. fst (convertValue w h (snd kv) b s') = Inr x) fs xs)))"
proof -
  obtain r1 s1 where m: "mapValues w h vs b s = (r1, s1)" by (cases "mapValues w h vs b s")
  from mapValues_Inr [of w h vs b s _ s'] m
  have r1: "(r1 = Inr xs) = list_all2 (\<lambda>v x. fst (convertValue w h v b s') = Inr x) vs xs" for xs
    by simp
  have arr: "fst (convertValue w h (WArray (Some vs)) b s) = Inr r \<longleftrightarrow>
      (\<exists>xs. r = HArray xs \<and> list_all2 (\<lambda>v x. fst (convertValue w h v b s') = Inr x) vs xs)"
  proof (cases r1)
    case (Inl e)
    with r1 have "\<not> list_all2 (\<lambda>v x. fst (convertValue w h v b s') = Inr x) vs xs" for xs
      by (metis sum.distinct(1))
    with m Inl show ?thesis by (simp add: convertValue_WArray convertArray.simps)
  next
    case (Inr ys)
    with r1 have "list_all2 (\<lambda>v x. fst (convertValue w h v b s') = Inr x) vs xs = (xs = ys)" for xs
      by (metis sum.inject(2))
    with m Inr show ?thesis by (auto simp: convertValue_WArray convertArray.simps)
  qed
  have obj: "fst (convertValue w h (WMap (Some fs)) b s) = Inr r' \<longleftrightarrow>
        (\<exists>xs. r' = HObject (zip (map fst fs) xs) \<and>
           list_all2 (\<lambda>kv x. fst (convertValue w h (snd kv) b s') = Inr x) fs xs)"
    if d: "distinct (map fst fs)"
  proof -
    obtain r2 s2 where f: "forEachField w h fs b [] s = (r2, s2)"
      by (cases "forEachField w h fs b [] s")
    from d forEachField_Inr [of "[]" fs w h b s _ s'] f
    have r2: "(r2 = Inr res) =
      (\<exists>xs. list_all2 (\<lambda>kv x. fst (convertValue w h (snd kv) b s') = Inr x) fs xs \<and>
            res = zip (map fst fs) xs)" for res
      by simp
    show ?thesis
    proof (cases r2)
      case (Inl e)
      with r2 have "\<not> list_all2 (\<lambda>kv x. fst (convertValue w h (snd kv) b s') = Inr x) fs xs" for xs
        by (metis sum.distinct(1))
      with f Inl show ?thesis by (simp add: convertValue_WMap convertObject.simps)
    next
      case (Inr res)
      with r2 [of res] obtain ys
        where ys: "list_all2 (\<lambda>kv x. fst (convertValue w h (snd kv) b s') = Inr x) fs ys"
          "res = zip (map fst fs) ys"
        by blast
      have "r' = HObject res \<longleftrightarrow>
        (\<exists>xs. r' = HObject (zip (map fst fs) xs) \<and>
           list_all2 (\<lambda>kv x. fst (convertValue w h (snd kv) b s') = Inr x) fs xs)"
      proof
        assume "r' = HObject res"
        with ys show "\<exists>xs. r' = HObject (zip (map fst fs) xs) \<and>
           list_all2 (\<lambda>kv x. fst (convertValue w h (snd kv) b s') = Inr x) fs xs"
          by blast
      next
        assume "\<exists>xs. r' = HObject (zip (map fst fs) xs) \<and>
           list_all2 (\<lambda>kv x. fst (convertValue w h (snd kv) b s') = Inr x) fs xs"
        then obtain xs where xs: "r' = HObject (zip (map fst fs) xs)"
          "list_all2 (\<lambda>kv x. fst (convertValue w h (snd kv) b s') = Inr x) fs xs"
          by blast
        from r2 [of "zip (map fst fs) xs"] xs(2) Inr have "res = zip (map fst fs) xs" by blast
        with xs(1) show "r' = HObject res" by simp
      qed
      with f Inr show ?thesis by (auto simp: convertValue_WMap convertObject.simps)
    qed
  qed
  from arr obj show ?thesis by blast
qed

section \<open>Failures\<close>

lemma find_append_first:
  "find P (xs @ ys) = (case find P xs of Some x \<Rightarrow> Some x | None \<Rightarrow> find P ys)"
  by (induction xs) auto

lemma mapValues_failure:
  assumes "\<And>v s. v \<in> set vs \<Longrightarrow>
    (case find P (visited b v) of
       Some u \<Rightarrow> fst (convertValue w h v b s) = Inl (failureOf u)
     | None \<Rightarrow> (\<exists>x. fst (convertValue w h v b s) = Inr x))"
  shows "case find P (concat (map (visited b) vs)) of
       Some u \<Rightarrow> fst (mapValues w h vs b s) = Inl (failureOf u)
     | None \<Rightarrow> (\<exists>xs. fst (mapValues w h vs b s) = Inr xs)"
  using assms
proof (induction vs arbitrary: s)
  case Nil
  show ?case by simp
next
  case (Cons v rest)
  obtain r1 s1 where c: "convertValue w h v b s = (r1, s1)"
    by (cases "convertValue w h v b s")
  from Cons.prems [of v s] c
  have q: "case find P (visited b v) of
       Some u \<Rightarrow> r1 = Inl (failureOf u) | None \<Rightarrow> (\<exists>x. r1 = Inr x)"
    by (simp split: option.splits)
  have ih: "case find P (concat (map (visited b) rest)) of
       Some u \<Rightarrow> fst (mapValues w h rest b s1) = Inl (failureOf u)
     | None \<Rightarrow> (\<exists>xs. fst (mapValues w h rest b s1) = Inr xs)"
    by (rule Cons.IH) (simp add: Cons.prems)
  show ?case
  proof (cases "find P (visited b v)")
    case (Some u)
    with q c show ?thesis by (simp add: find_append_first)
  next
    case None
    with q obtain x where "r1 = Inr x" by auto
    with c ih None show ?thesis
      by (auto simp: find_append_first split: option.splits sum.splits prod.splits)
  qed
qed

lemma forEachField_failure:
  assumes "\<And>kv s. kv \<in> set fs \<Longrightarrow>
    (case find P (visited b (snd kv)) of
       Some u \<Rightarrow> fst (convertValue w h (snd kv) b s) = Inl (failureOf u)
     | None \<Rightarrow> (\<exists>x. fst (convertValue w h (snd kv) b s) = Inr x))"
  shows "case find P (concat (map (visited b) (map snd fs))) of
       Some u \<Rightarrow> fst (forEachField w h fs b acc s) = Inl (failureOf u)
     | None \<Rightarrow> (\<exists>res. fst (forEachField w h fs b acc s) = Inr res)"
  using assms
proof (induction fs arbitrary: s acc)
  case Nil
  show ?case by simp
next
  case (Cons kv rest)
  obtain r1 s1 where c: "convertValue w h (snd kv) b s = (r1, s1)"
    by (cases "convertValue w h (snd kv) b s")
  from Cons.prems [of kv s] c
  have q: "case find P (visited b (snd kv)) of
       Some u \<Rightarrow> r1 = Inl (failureOf u) | None \<Rightarrow> (\<exists>x. r1 = Inr x)"
    by (simp split: option.splits)
  have ih: "case find P (concat (map (visited b) (map snd rest))) of
       Some u \<Rightarrow> fst (forEachField w h rest b acc' s1) = Inl (failureOf u)
     | None \<Rightarrow> (\<exists>res. fst (forEachField w h rest b acc' s1) = Inr res)" for acc'
    by (rule Cons.IH) (simp add: Cons.prems)
  show ?case
  proof (cases "find P (visited b (snd kv))")
    case (Some u)
    with q c show ?thesis by (simp add: find_append_first)
  next
    case None
    with q obtain x where x: "r1 = Inr x" by auto
    from ih [of "assign (fst kv) x acc"] c x None show ?thesis
      by (simp add: find_append_first split: option.splits)
  qed
qed

lemma outsideContract_simps:
  "outsideContract h WNull = False"
  "outsideContract h (WBoolean x) = False"
  "outsideContract h (WInteger i) = False"
  "outsideContract h (WDouble d) = False"
  "outsideContract h (WTimestamp t) = False"
  "outsideContract h (WServerTimestamp t p) = False"
  "outsideContract h (WString x') = False"
  "outsideContract h (WBytes y) = False"
  "outsideContract h (WReference n) = (\<not> isValidResourceName h (fromString n))"
  "outsideContract h (WGeoPoint g) = False"
  "outsideContract h (WArray a) = False"
  "outsideContract h (WMap m) = False"
  "outsideContract h WUnknown = True"
  by (simp_all add: outsideContract_def)

lemma serverTimestamp_failure_step:
  assumes ih: "case find (outsideContract h) (visited b q) of
          Some u \<Rightarrow> fst (convertValue w h q b s) = Inl (failureOf u)
        | None \<Rightarrow> (\<exists>x. fst (convertValue w h q b s) = Inr x)"
  shows "case find (outsideContract h) (visited b (WServerTimestamp t (Some q))) of
     Some u \<Rightarrow> fst (convertValue w h (WServerTimestamp t (Some q)) b s) = Inl (failureOf u)
   | None \<Rightarrow> (\<exists>x. fst (convertValue w h (WServerTimestamp t (Some q)) b s) = Inr x)"
proof (cases "b = Previous")
  case True
  have call: "convertValue w h (WServerTimestamp t (Some q)) Previous s =
      convertValue w h q Previous s"
    by (simp add: convertValue_WServerTimestamp convertServerTimestamp.simps)
  have reached: "find (outsideContract h) (visited Previous (WServerTimestamp t (Some q))) =
      find (outsideContract h) (visited Previous q)"
    by (simp add: outsideContract_simps)
  from ih show ?thesis unfolding True call reached .
next
  case False
  then have "\<exists>x. fst (convertValue w h (WServerTimestamp t (Some q)) b s) = Inr x"
    by (cases b)
      (simp_all add: convertValue_WServerTimestamp convertServerTimestamp.simps)
  moreover from False
  have "find (outsideContract h) (visited b (WServerTimestamp t (Some q))) = None"
    by (simp add: outsideContract_simps)
  ultimately show ?thesis by simp
qed


lemma array_failure_step:
  assumes "case find (outsideContract h) (concat (map (visited b) vs)) of
        Some u \<Rightarrow> fst (mapValues w h vs b s) = Inl (failureOf u)
      | None \<Rightarrow> (\<exists>xs. fst (mapValues w h vs b s) = Inr xs)"
  shows "case find (outsideContract h) (visited b (WArray (Some vs))) of
     Some u \<Rightarrow> fst (convertValue w h (WArray (Some vs)) b s) = Inl (failureOf u)
   | None \<Rightarrow> (\<exists>x. fst (convertValue w h (WArray (Some vs)) b s) = Inr x)"
proof -
  obtain r1 s1 where m: "mapValues w h vs b s = (r1, s1)" by (cases "mapValues w h vs b s")
  have reached: "find (outsideContract h) (visited b (WArray (Some vs))) =
      find (outsideContract h) (concat (map (visited b) vs))"
    by (simp add: outsideContract_simps)
  show ?thesis
  proof (cases "find (outsideContract h) (concat (map (visited b) vs))")
    case None
    with assms m obtain xs where "r1 = Inr xs" by auto
    with m None show ?thesis
      unfolding reached by (simp add: convertValue_WArray convertArray.simps)
  next
    case (Some u)
    with assms m have "r1 = Inl (failureOf u)" by simp
    with m Some show ?thesis
      unfolding reached by (simp add: convertValue_WArray convertArray.simps)
  qed
qed

lemma map_failure_step:
  assumes "case find (outsideContract h) (concat (map (visited b) (map snd fs))) of
        Some u \<Rightarrow> fst (forEachField w h fs b [] s) = Inl (failureOf u)
      | None \<Rightarrow> (\<exists>res. fst (forEachField w h fs b [] s) = Inr res)"
  shows "case find (outsideContract h) (visited b (WMap (Some fs))) of
     Some u \<Rightarrow> fst (convertValue w h (WMap (Some fs)) b s) = Inl (failureOf u)
   | None \<Rightarrow> (\<exists>x. fst (convertValue w h (WMap (Some fs)) b s) = Inr x)"
proof -
  obtain r1 s1 where m: "forEachField w h fs b [] s = (r1, s1)"
    by (cases "forEachField w h fs b [] s")
  have reached: "find (outsideContract h) (visited b (WMap (Some fs))) =
      find (outsideContract h) (concat (map (visited b) (map snd fs)))"
    by (simp add: outsideContract_simps)
  show ?thesis
  proof (cases "find (outsideContract h) (concat (map (visited b) (map snd fs)))")
    case None
    with assms m obtain res where "r1 = Inr res" by auto
    with m None show ?thesis
      unfolding reached by (simp add: convertValue_WMap convertObject.simps)
  next
    case (Some u)
    with assms m have "r1 = Inl (failureOf u)" by simp
    with m Some show ?thesis
      unfolding reached by (simp add: convertValue_WMap convertObject.simps)
  qed
qed

lemma convertValue_failure:
  "case find (outsideContract h) (visited b v) of
     Some u \<Rightarrow> fst (convertValue w h v b s) = Inl (failureOf u)
   | None \<Rightarrow> (\<exists>x. fst (convertValue w h v b s) = Inr x)"
proof (induction v arbitrary: s)
  case (WServerTimestamp t p)
  show ?case
  proof (cases p)
    case None
    then show ?thesis
      by (cases b)
        (simp_all add: outsideContract_simps convertValue_WServerTimestamp
          convertServerTimestamp.simps)
  next
    case (Some q)
    show ?thesis unfolding Some by (rule serverTimestamp_failure_step, rule WServerTimestamp) (simp add: Some)
  qed
next
  case (WReference n)
  show ?case
    by (simp add: outsideContract_simps failureOf_def convertValue_WReference convertReference_def
        Let_def)
next
  case (WGeoPoint g)
  show ?case by (simp add: outsideContract_simps convertValue.simps convertGeoPoint_def)
next
  case (WArray a)
  show ?case
  proof (cases a)
    case None
    then show ?thesis by (simp add: outsideContract_simps convertValue_WArray convertArray.simps)
  next
    case (Some vs)
    show ?thesis unfolding Some
      by (rule array_failure_step, rule mapValues_failure, rule WArray) (simp_all add: Some)
  qed
next
  case (WMap m)
  show ?case
  proof (cases m)
    case None
    then show ?thesis by (simp add: outsideContract_simps convertValue_WMap convertObject.simps)
  next
    case (Some fs)
    have "case find (outsideContract h) (visited b (snd kv)) of
          Some u \<Rightarrow> fst (convertValue w h (snd kv) b s) = Inl (failureOf u)
        | None \<Rightarrow> (\<exists>x. fst (convertValue w h (snd kv) b s) = Inr x)"
      if "kv \<in> set fs" for kv s
    proof (rule WMap)
      show "fs \<in> set_option m" by (simp add: Some)
      show "kv \<in> set fs" by (rule that)
      show "snd kv \<in> Basic_BNFs.snds kv" by (cases kv) simp
    qed
    then show ?thesis unfolding Some by (intro map_failure_step forEachField_failure)
  qed
next
  case WUnknown
  show ?case by (simp add: outsideContract_simps failureOf_def convertValue_WUnknown)
qed (simp_all add: outsideContract_simps convertValue.simps)

text \<open>
  The \<open>TypeError\<close> of a read behind a non-null assertion never occurs: the type order
  guarantees the payload that each branch reads.
\<close>

lemma convertValue_no_TypeError: "fst (convertValue w h v b s) \<noteq> Inl TypeError"
proof (cases "find (outsideContract h) (visited b v)")
  case None
  with convertValue_failure [where h = h and b = b and v = v and w = w and s = s]
  show ?thesis by auto
next
  case (Some u)
  with convertValue_failure [where h = h and b = b and v = v and w = w and s = s]
  show ?thesis by (simp add: failureOf_def split: option.splits)
qed

text \<open>
  C4. A call fails exactly when decoding reaches a wire value outside the wire contract:
  the value itself, an element of an array, a field of a map, or the previous value of a
  ServerTimestamp decoded with behavior \<open>previous\<close>, at any depth, whose tag is none of
  the eleven variants or which is a Reference whose resource name fails
  \<open>isValidResourceName\<close>. The failure raised is that of the first such value in the
  order of decoding: the invalid-value-type failure of the default branch, or the hard
  assertion on the reference. When no such value is reached the call returns a value.
\<close>

theorem failure_iff_outside_contract:
  "((\<exists>e. fst (convertValue w h v b s) = Inl e) \<longleftrightarrow>
      (\<exists>u \<in> set (visited b v). outsideContract h u)) \<and>
   (\<forall>u. find (outsideContract h) (visited b v) = Some u \<longrightarrow>
      fst (convertValue w h v b s) = Inl (failureOf u)) \<and>
   (typeOrder v = None \<longrightarrow> fst (convertValue w h v b s) = Inl (InvalidValueType v)) \<and>
   (\<forall>name. v = WReference name \<and> \<not> isValidResourceName h (fromString name) \<longrightarrow>
      fst (convertValue w h v b s) = Inl (ReferenceValueNotValid name))"
proof -
  note spec = convertValue_failure [where h = h and b = b and v = v and w = w and s = s]
  have iff: "(\<exists>e. fst (convertValue w h v b s) = Inl e) \<longleftrightarrow>
      (\<exists>u \<in> set (visited b v). outsideContract h u)"
  proof (cases "find (outsideContract h) (visited b v)")
    case None
    with spec show ?thesis by (auto simp: find_None_iff)
  next
    case (Some u)
    with spec show ?thesis by (auto simp: find_Some_iff)
  qed
  have first: "\<forall>u. find (outsideContract h) (visited b v) = Some u \<longrightarrow>
      fst (convertValue w h v b s) = Inl (failureOf u)"
  proof (intro allI impI)
    fix u
    assume "find (outsideContract h) (visited b v) = Some u"
    with spec show "fst (convertValue w h v b s) = Inl (failureOf u)" by simp
  qed
  have tag: "fst (convertValue w h v b s) = Inl (InvalidValueType v)" if "typeOrder v = None"
    using that by (cases v) (simp_all add: convertValue_WUnknown)
  have ref: "fst (convertValue w h v b s) = Inl (ReferenceValueNotValid name)"
    if "v = WReference name" "\<not> isValidResourceName h (fromString name)" for name
    using that by (simp add: convertValue_WReference convertReference_def Let_def)
  from iff first tag ref show ?thesis by blast
qed

section \<open>Examples of containers and failures\<close>

theorem containers_recursive_witness:
  "distinct (map fst
     [(''t'', WServerTimestamp (Finite 7, Finite 9) (Some (WString ''old''))),
      (''n'', WNull :: (number \<times> number, string) Value)]) \<and>
   fst (convertValue (exampleWriter ''P'' ''D'') exampleImports
     (WMap (Some [(''t'', WServerTimestamp (Finite 7, Finite 9) (Some (WString ''old''))),
                  (''n'', WNull)])) Estimate []) =
     Inr (HObject [(''t'', HTimestamp (Finite 7) (Finite 9)), (''n'', HNull)]) \<and>
   fst (convertValue (exampleWriter ''P'' ''D'') exampleImports
     (WArray (Some [WMap (Some [(''t'', WServerTimestamp (Finite 7, Finite 9) (Some (WString ''old''))),
                                (''n'', WNull)]),
                    WBoolean True])) Estimate []) =
     Inr (HArray [HObject [(''t'', HTimestamp (Finite 7) (Finite 9)), (''n'', HNull)],
                  HBoolean True])"
proof -
  let ?w = "exampleWriter ''P'' ''D''"
  let ?fs = "[(''t'', WServerTimestamp (Finite 7, Finite 9) (Some (WString ''old''))),
      (''n'', WNull :: (number \<times> number, string) Value)]"
  let ?obj = "HObject [(''t'', HTimestamp (Finite 7) (Finite 9)), (''n'', HNull)]
    :: (DocumentKey, string) UserData"
  have d: "distinct (map fst ?fs)" by simp
  have st: "fst (convertValue ?w exampleImports
      (WServerTimestamp (Finite 7, Finite 9) (Some (WString ''old''))) Estimate []) =
      Inr (HTimestamp (Finite 7) (Finite 9))"
    by (simp add: convertValue_WServerTimestamp convertServerTimestamp.simps convertTimestamp_def
        exampleImports_def)
  have nl: "fst (convertValue ?w exampleImports WNull Estimate []) = Inr HNull"
    by (simp add: convertValue_WNull)
  have bl: "fst (convertValue ?w exampleImports (WBoolean True) Estimate []) = Inr (HBoolean True)"
    by (simp add: convertValue.simps)
  from containers_recursive [of ?w exampleImports "[]" Estimate "[]" "HArray []" "[]" ?fs ?obj] d
  have obj: "fst (convertValue ?w exampleImports (WMap (Some ?fs)) Estimate []) = Inr ?obj"
    using st nl by (auto intro!: exI [of _ "[HTimestamp (Finite 7) (Finite 9), HNull]"])
  from containers_recursive [of ?w exampleImports "[WMap (Some ?fs), WBoolean True]" Estimate "[]"
      "HArray [?obj, HBoolean True]" "[]" ?fs ?obj]
  have "fst (convertValue ?w exampleImports (WArray (Some [WMap (Some ?fs), WBoolean True]))
      Estimate []) = Inr (HArray [?obj, HBoolean True])"
    using obj bl by simp
  with d obj show ?thesis by simp
qed

text \<open>
  A wire value whose own tag is recognized and which is no Reference, and yet the call
  fails: the array holds an element with an unrecognized tag. And a wire value that holds
  an unrecognized value, and yet the call returns: the previous value of a
  ServerTimestamp is not decoded under behavior \<open>none\<close>.
\<close>

theorem recognized_tag_counterexample:
  "typeOrder (WArray (Some [WUnknown]) :: (number \<times> number, string) Value) = Some ArrayValue \<and>
   referenceValue (WArray (Some [WUnknown]) :: (number \<times> number, string) Value) = None \<and>
   fst (convertValue (exampleWriter ''P'' ''D'') exampleImports (WArray (Some [WUnknown]))
     NoBehavior []) = Inl (InvalidValueType WUnknown) \<and>
   typeOrder (WUnknown :: (number \<times> number, string) Value) = None \<and>
   fst (convertValue (exampleWriter ''P'' ''D'') exampleImports
     (WServerTimestamp (Finite 7, Finite 9) (Some WUnknown)) NoBehavior []) = Inr HNull"
  by (simp add: convertValue_WArray convertArray.simps convertValue_WUnknown
      convertValue_WServerTimestamp convertServerTimestamp.simps)

theorem failure_iff_outside_contract_witness:
  "(\<exists>u \<in> set (visited Previous
       (WServerTimestamp (Finite 7, Finite 9) (Some (WArray (Some [WNull, WReference ''bad'']))))).
      outsideContract exampleImports u) \<and>
   find (outsideContract exampleImports) (visited Previous
       (WServerTimestamp (Finite 7, Finite 9) (Some (WArray (Some [WNull, WReference ''bad'']))))) =
     Some (WReference ''bad'') \<and>
   fst (convertValue (exampleWriter ''P'' ''D'') exampleImports
       (WServerTimestamp (Finite 7, Finite 9) (Some (WArray (Some [WNull, WReference ''bad'']))))
       Previous []) = Inl (ReferenceValueNotValid ''bad'') \<and>
   \<not> (\<exists>u \<in> set (visited Estimate
       (WServerTimestamp (Finite 7, Finite 9) (Some (WArray (Some [WNull, WReference ''bad'']))))).
      outsideContract exampleImports u) \<and>
   \<not> (\<exists>e. fst (convertValue (exampleWriter ''P'' ''D'') exampleImports
       (WServerTimestamp (Finite 7, Finite 9) (Some (WArray (Some [WNull, WReference ''bad'']))))
       Estimate []) = Inl e) \<and>
   typeOrder (WUnknown :: (number \<times> number, string) Value) = None \<and>
   fst (convertValue (exampleWriter ''P'' ''D'') exampleImports WUnknown Previous []) =
     Inl (InvalidValueType WUnknown)"
proof -
  let ?v = "WServerTimestamp (Finite 7, Finite 9) (Some (WArray (Some [WNull, WReference ''bad''])))
    :: (number \<times> number, string) Value"
  have bad: "fromString ''bad'' = [''bad'']" by (simp add: fromString_def)
  have oc: "outsideContract exampleImports (WReference ''bad'')"
    by (simp add: outsideContract_simps bad exampleImports_def)
  have found: "find (outsideContract exampleImports) (visited Previous ?v) = Some (WReference ''bad'')"
    using oc by (simp add: outsideContract_simps)
  have none: "\<not> (\<exists>u \<in> set (visited Estimate ?v). outsideContract exampleImports u)"
    by (simp add: outsideContract_simps)
  from failure_iff_outside_contract [of "exampleWriter ''P'' ''D''" exampleImports ?v Previous "[]"]
    failure_iff_outside_contract [of "exampleWriter ''P'' ''D''" exampleImports ?v Estimate "[]"]
    failure_iff_outside_contract [of "exampleWriter ''P'' ''D''" exampleImports WUnknown Previous "[]"]
    found none oc
  show ?thesis by (simp add: failureOf_def)
qed
end
